theory Spec2Isabelle
  imports Complex_Main "HOL-Library.Log_Nat" "HOL-Library.Sublist"
begin

section \<open>Configuration constants of Code.py\<close>

text \<open>
  Modelled from the spec: the table \<open>evdev.ecodes\<close> is imported by Code.py and is not part of
  the repository. The spec only says that an event type is one of ABS and KEY; the two
  constants below carry the numbers the Linux input layer gives them. Every proof uses only
  that they differ.
\<close>

definition EV_KEY :: int where "EV_KEY = 1"
definition EV_ABS :: int where "EV_ABS = 3"

definition CONTROLLER_PATH :: string where "CONTROLLER_PATH = ''/dev/input/event2''"
definition ACCEL_CODE :: int where "ACCEL_CODE = 313"
definition REVERSE_CODE :: int where "REVERSE_CODE = 314"
definition BRAKE_CODE :: int where "BRAKE_CODE = 312"
definition HORN_CODE :: int where "HORN_CODE = 304"
definition HORN2_CODE :: int where "HORN2_CODE = 305"
definition STOP_SOUND_CODE :: int where "STOP_SOUND_CODE = 308"
definition STEERING_AXIS_CODE :: int where "STEERING_AXIS_CODE = 0"

definition TRIM_AXIS_CODE :: int where "TRIM_AXIS_CODE = 16"
definition TRIM_STEP :: int where "TRIM_STEP = 1"
definition MAX_TRIM :: int where "MAX_TRIM = 45"

definition FULL_SPEED :: int where "FULL_SPEED = 100"
definition AXIS_MIN :: int where "AXIS_MIN = 0"
definition AXIS_MAX :: int where "AXIS_MAX = 255"
definition AXIS_MID :: int where "AXIS_MID = 128"
definition STEERING_DEADZONE :: int where "STEERING_DEADZONE = 10"
definition STEERING_MAX_ANGLE :: int where "STEERING_MAX_ANGLE = 90"
definition STEERING_SPEED :: int where "STEERING_SPEED = 720"
definition STEERING_HOME_POSITION :: int where "STEERING_HOME_POSITION = 0"

lemmas config_defs =
  EV_KEY_def EV_ABS_def CONTROLLER_PATH_def ACCEL_CODE_def REVERSE_CODE_def BRAKE_CODE_def
  HORN_CODE_def HORN2_CODE_def STOP_SOUND_CODE_def STEERING_AXIS_CODE_def TRIM_AXIS_CODE_def
  TRIM_STEP_def MAX_TRIM_def FULL_SPEED_def AXIS_MIN_def AXIS_MAX_def AXIS_MID_def
  STEERING_DEADZONE_def STEERING_MAX_ANGLE_def STEERING_SPEED_def

section \<open>Python floats\<close>

text \<open>
  \<open>raw_value - AXIS_MID\<close> is an integer, and Python 3's \<open>/\<close> on two integers is true division:
  its result is the double nearest to the exact quotient. The product with
  \<open>STEERING_MAX_ANGLE\<close> and the sum with the trim are double operations as well, each
  returning the double nearest to the exact result, ties going to the even significand.
  A double is modelled by the real number it denotes. \<open>py_float\<close> rounds a real to 53
  significant bits; the exponent is unbounded here, which agrees with binary64 as long as no
  intermediate value leaves the normal range, and none does for a 32-bit event value and a
  trim between -45 and 45.
\<close>

definition round_half_even :: "real \<Rightarrow> int" where
  "round_half_even x =
     (let f = \<lfloor>x\<rfloor>; d = x - of_int f
      in if d < 1 / 2 then f
         else if 1 / 2 < d then f + 1
         else if even f then f else f + 1)"

text \<open>\<open>ilog2 x\<close> is the exponent \<open>e\<close> with \<open>2 ^ e \<le> \<bar>x\<bar> < 2 ^ (e + 1)\<close>, for \<open>x \<noteq> 0\<close>.\<close>

definition ilog2 :: "real \<Rightarrow> int" where
  "ilog2 x =
     (if 1 \<le> \<bar>x\<bar> then bitlen \<lfloor>\<bar>x\<bar>\<rfloor> - 1
      else - bitlen (\<lceil>1 / \<bar>x\<bar>\<rceil> - 1))"

definition py_float :: "real \<Rightarrow> real" where
  "py_float x =
     (if x = 0 then 0
      else let e = ilog2 x - 52
           in of_int (round_half_even (x / 2 powi e)) * 2 powi e)"

text \<open>\<open>int(x)\<close> on a float truncates toward zero.\<close>

definition py_int :: "real \<Rightarrow> int" where
  "py_int x = (if 0 \<le> x then \<lfloor>x\<rfloor> else \<lceil>x\<rceil>)"

section \<open>The steering normalizer\<close>

text \<open>
  \<open>normalize_steering\<close> reads the global \<open>steering_trim\<close>; the model takes it as its first
  argument.
\<close>

definition normalize_steering :: "int \<Rightarrow> int \<Rightarrow> int" where
  "normalize_steering steering_trim raw_value =
     (let is_centered_on_stick =
            (AXIS_MID - STEERING_DEADZONE \<le> raw_value \<and> raw_value \<le> AXIS_MID + STEERING_DEADZONE)
      in if is_centered_on_stick then steering_trim
         else
           let normalized_val = raw_value - AXIS_MID;
               target_angle =
                 py_float (py_float (of_int normalized_val / of_int (AXIS_MAX - AXIS_MID))
                           * of_int STEERING_MAX_ANGLE)
           in py_int (py_float (target_angle + of_int steering_trim)))"

section \<open>Events, effects and the event loop\<close>

record event =
  ev_type :: int
  ev_code :: int
  ev_value :: int

text \<open>
  Every call on the motors, the speaker and standard output is an effect; a run of the
  program is the list of its effects in the order the calls are made.
\<close>

datatype action =
    Print string
  | Speak string
  | PlayFile string int
  | SoundStop
  | TankOn int int
  | TankOff bool
  | RunToAbsPos int int string
  | SetStopAction string
  | MotorReset
  | MotorOff

text \<open>\<open>"{}".format(n)\<close> for an integer: its decimal digits, with a minus sign when negative.\<close>

fun str_nat :: "nat \<Rightarrow> string" where
  "str_nat n =
     (if n < 10 then [''0123456789'' ! n]
      else str_nat (n div 10) @ [''0123456789'' ! (n mod 10)])"

declare str_nat.simps [simp del]

definition str_int :: "int \<Rightarrow> string" where
  "str_int i = (if i < 0 then CHR ''-'' # str_nat (nat (- i)) else str_nat (nat i))"

text \<open>The branch of the loop body for key events (drive and sound).\<close>

definition handle_key :: "event \<Rightarrow> action list" where
  "handle_key ev =
     (if ev_code ev = ACCEL_CODE then
        (if ev_value ev = 1 then [TankOn FULL_SPEED FULL_SPEED]
         else if ev_value ev = 0 then [TankOff False] else [])
      else if ev_code ev = REVERSE_CODE then
        (if ev_value ev = 1 then [TankOn (- FULL_SPEED) (- FULL_SPEED)]
         else if ev_value ev = 0 then [TankOff False] else [])
      else if ev_code ev = BRAKE_CODE then
        (if ev_value ev = 1 then [TankOff True]
         else if ev_value ev = 0 then [TankOff False] else [])
      else if ev_code ev = HORN_CODE then
        (if ev_value ev = 1 then [PlayFile ''/home/robot/VSCODE/Horn.wav'' 1] else [])
      else if ev_code ev = HORN2_CODE then
        (if ev_value ev = 1 then [PlayFile ''/home/robot/VSCODE/Horn2.wav'' 1] else [])
      else if ev_code ev = STOP_SOUND_CODE then
        (if ev_value ev = 1 then [SoundStop] else [])
      else [])"

text \<open>
  One iteration of the loop body. The state is the global \<open>steering_trim\<close>;
  \<open>current_position\<close> is what \<open>steering_motor.position\<close> returns if this iteration reads it.
  The result is the new trim and the effects of the iteration.
\<close>

definition handle_event :: "int \<Rightarrow> event \<Rightarrow> int \<Rightarrow> int \<times> action list" where
  "handle_event steering_trim ev current_position =
     (if ev_type ev = EV_ABS \<and> ev_code ev = STEERING_AXIS_CODE then
        (let target_angle = normalize_steering steering_trim (ev_value ev);
             is_centered_on_stick =
               (AXIS_MID - STEERING_DEADZONE \<le> ev_value ev
                \<and> ev_value ev \<le> AXIS_MID + STEERING_DEADZONE)
         in if is_centered_on_stick then
              (if \<bar>current_position - target_angle\<bar> > 1
               then (steering_trim, [RunToAbsPos target_angle STEERING_SPEED ''coast''])
               else (steering_trim, []))
            else (steering_trim, [RunToAbsPos target_angle STEERING_SPEED ''coast'']))
      else if ev_type ev = EV_ABS \<and> ev_code ev = TRIM_AXIS_CODE \<and> ev_value ev \<noteq> 0 then
        (let stepped =
               (if ev_value ev = - 1 then steering_trim - TRIM_STEP
                else if ev_value ev = 1 then steering_trim + TRIM_STEP
                else steering_trim);
             clamped = max (- MAX_TRIM) (min MAX_TRIM stepped)
         in (clamped,
             [Print (''Steering Trim updated: '' @ str_int clamped @ '' degrees''),
              Speak (''Trim '' @ str_int clamped @ '' degrees''),
              RunToAbsPos clamped STEERING_SPEED ''coast'']))
      else if ev_type ev = EV_KEY then (steering_trim, handle_key ev)
      else (steering_trim, []))"

text \<open>
  The \<open>for\<close> loop over \<open>dev.read_loop()\<close>: events are handled in the order they arrive, each
  paired with the position the steering motor reports during its iteration.
\<close>

fun run_events :: "int \<Rightarrow> (event \<times> int) list \<Rightarrow> int \<times> action list" where
  "run_events steering_trim [] = (steering_trim, [])"
| "run_events steering_trim ((ev, pos) # rest) =
     (let (trim', acts) = handle_event steering_trim ev pos;
          (trim'', acts') = run_events trim' rest
      in (trim'', acts @ acts'))"

definition initial_steering_trim :: int where
  "initial_steering_trim = 0"

section \<open>The whole program\<close>

datatype open_result = Opened string | FileNotFoundError | PermissionError

datatype exn = KeyboardInterrupt | OtherException

text \<open>
  How the loop ends: the event source is exhausted, or an exception is raised. An exception
  can arrive while an event is being handled; then the event, the motor position of that
  iteration and the number of effects already performed are given.
\<close>

datatype loop_end = LoopExit | Raised exn "(event \<times> int \<times> nat) option"

definition shutdown_sequence :: "action list" where
  "shutdown_sequence = [TankOff False, SetStopAction ''brake'', MotorOff]"

definition module_setup :: "action list" where
  "module_setup = [SetStopAction ''coast'', MotorReset]"

definition in_flight :: "int \<Rightarrow> (event \<times> int \<times> nat) option \<Rightarrow> action list" where
  "in_flight steering_trim p =
     (case p of None \<Rightarrow> []
      | Some (ev, pos, k) \<Rightarrow> take k (snd (handle_event steering_trim ev pos)))"

text \<open>
  The script from top to bottom. The result is the list of effects and the exit status of
  the process: \<open>sys.exit(1)\<close> gives 1, an exception that is not caught gives 1 after the
  \<open>finally\<close> block has run, and reaching the end of the script gives 0.
\<close>

definition main :: "open_result \<Rightarrow> (event \<times> int) list \<Rightarrow> loop_end \<Rightarrow> action list \<times> int" where
  "main opened evs ending =
     (let start = module_setup
            @ [Print (''Attempting to open controller at '' @ CONTROLLER_PATH @ ''...'')]
      in case opened of
           FileNotFoundError \<Rightarrow>
             (start @ [Print (''Error: Controller not found at '' @ CONTROLLER_PATH
                               @ ''. Check your USB connection and path.'')], 1)
         | PermissionError \<Rightarrow>
             (start @ [Print ''Error: Permission denied. You must run the script with 'sudo'.''], 1)
         | Opened name \<Rightarrow>
             (let ready = start
                    @ [Print (''Successfully connected to: '' @ name),
                       Print ''Controller ready. ZR/Select for Drive. ZL for Brake. D-Pad Left/Right for Trim. A for Horn, B for Horn 2, X to Stop Sound.''];
                  (trim, acts) = run_events initial_steering_trim evs
              in case ending of
                   LoopExit \<Rightarrow> (ready @ acts @ shutdown_sequence, 0)
                 | Raised KeyboardInterrupt p \<Rightarrow>
                     (ready @ acts @ in_flight trim p
                        @ [Print (CHR 0x0A # ''Program interrupted. Stopping motors.'')]
                        @ shutdown_sequence @ shutdown_sequence, 0)
                 | Raised OtherException p \<Rightarrow>
                     (ready @ acts @ in_flight trim p @ shutdown_sequence, 1)))"

section \<open>Properties of the float operations\<close>

subsection \<open>The binary exponent\<close>

lemma bitlen_pos: "0 < n \<Longrightarrow> 1 \<le> bitlen n"
  using bitlen_eq_zero_iff [of n] bitlen_nonneg [of n] by linarith

lemma bitlen_real_bounds:
  assumes "1 \<le> n"
  shows "(2::real) ^ nat (bitlen n - 1) \<le> real_of_int n"
    and "real_of_int n + 1 \<le> 2 ^ nat (bitlen n)"
proof -
  from bitlen_bounds [of n] assms
  have lo: "2 ^ nat (bitlen n - 1) \<le> n" and hi: "n + 1 \<le> 2 ^ nat (bitlen n)" by simp_all
  from lo have "real_of_int (2 ^ nat (bitlen n - 1)) \<le> real_of_int n"
    by (simp only: of_int_le_iff)
  then show "(2::real) ^ nat (bitlen n - 1) \<le> real_of_int n" by simp
  from hi have "real_of_int (n + 1) \<le> real_of_int (2 ^ nat (bitlen n))"
    by (simp only: of_int_le_iff)
  then show "real_of_int n + 1 \<le> 2 ^ nat (bitlen n)" by simp
qed

lemma two_powi_less_D: "(2::real) powi a < 2 powi b \<Longrightarrow> a < b"
proof (rule ccontr)
  assume lt: "(2::real) powi a < 2 powi b" and "\<not> a < b"
  then have "b \<le> a" by simp
  then have "(2::real) powi b \<le> 2 powi a" by (rule power_int_increasing) simp
  with lt show False by simp
qed

lemma ilog2_bounds:
  assumes "x \<noteq> 0"
  shows "2 powi (ilog2 x) \<le> \<bar>x\<bar> \<and> \<bar>x\<bar> < 2 powi (ilog2 x + 1)"
proof (cases "1 \<le> \<bar>x\<bar>")
  case True
  define n where "n = \<lfloor>\<bar>x\<bar>\<rfloor>"
  have n: "1 \<le> n" using True by (simp add: n_def le_floor_iff)
  then have b: "1 \<le> bitlen n" by (simp add: bitlen_pos)
  have e: "ilog2 x = bitlen n - 1" using True by (simp add: ilog2_def n_def)
  note lo = bitlen_real_bounds(1) [OF n] and hi = bitlen_real_bounds(2) [OF n]
  have nx: "real_of_int n \<le> \<bar>x\<bar>" and xn: "\<bar>x\<bar> < real_of_int n + 1"
    by (simp_all add: n_def)
  have p1: "(2::real) powi (ilog2 x) = 2 ^ nat (bitlen n - 1)"
    using b by (simp add: e power_int_nonneg_exp)
  have p2: "(2::real) powi (ilog2 x + 1) = 2 ^ nat (bitlen n)"
    using b by (simp add: e power_int_nonneg_exp)
  show ?thesis unfolding p1 p2 using lo hi nx xn by linarith
next
  case False
  define y where "y = 1 / \<bar>x\<bar>"
  define m where "m = \<lceil>y\<rceil> - 1"
  have xpos: "0 < \<bar>x\<bar>" using assms by simp
  have y1: "1 < y" using False xpos by (simp add: y_def)
  have m: "1 \<le> m" using y1 by (simp add: m_def less_ceiling_iff)
  then have b: "1 \<le> bitlen m" by (simp add: bitlen_pos)
  have e: "ilog2 x = - bitlen m" using False by (simp add: ilog2_def m_def y_def)
  note lo = bitlen_real_bounds(1) [OF m] and hi = bitlen_real_bounds(2) [OF m]
  have my: "real_of_int m < y" and ym: "y \<le> real_of_int m + 1"
    unfolding m_def by linarith+
  have ylo: "2 ^ nat (bitlen m - 1) < y" using lo my by linarith
  have yhi: "y \<le> 2 ^ nat (bitlen m)" using hi ym by linarith
  have x: "\<bar>x\<bar> = 1 / y" using xpos by (simp add: y_def)
  have ypos: "0 < y" using y1 by simp
  have p1: "(2::real) powi (ilog2 x) = 1 / 2 ^ nat (bitlen m)"
    using b by (simp add: e power_int_minus power_int_nonneg_exp field_simps)
  have "ilog2 x + 1 = - (bitlen m - 1)" by (simp add: e)
  then have p2: "(2::real) powi (ilog2 x + 1) = 1 / 2 ^ nat (bitlen m - 1)"
    using b by (simp only: power_int_minus) (simp add: power_int_nonneg_exp field_simps)
  have 1: "2 powi (ilog2 x) \<le> \<bar>x\<bar>"
    unfolding p1 x using yhi ypos by (simp add: frac_le)
  have 2: "\<bar>x\<bar> < 2 powi (ilog2 x + 1)"
    unfolding p2 x using ylo ypos by (simp add: frac_less2)
  from 1 2 show ?thesis ..
qed

lemma ilog2_minus: "ilog2 (- x) = ilog2 x"
  by (simp add: ilog2_def)

lemma ilog2_unique:
  assumes "2 powi k \<le> \<bar>x\<bar>" "\<bar>x\<bar> < 2 powi (k + 1)"
  shows "ilog2 x = k"
proof -
  have "0 < \<bar>x\<bar>" using assms(1) zero_less_power_int [of "2::real" k] by linarith
  then have x: "x \<noteq> 0" by simp
  note b = ilog2_bounds [OF x]
  have "(2::real) powi k < 2 powi (ilog2 x + 1)" using assms(1) b by linarith
  then have 1: "k < ilog2 x + 1" by (rule two_powi_less_D)
  have "(2::real) powi (ilog2 x) < 2 powi (k + 1)" using assms(2) b by linarith
  then have 2: "ilog2 x < k + 1" by (rule two_powi_less_D)
  from 1 2 show ?thesis by simp
qed

lemma ilog2_mono:
  assumes "x \<noteq> 0" "\<bar>x\<bar> \<le> \<bar>y\<bar>"
  shows "ilog2 x \<le> ilog2 y"
proof -
  have y: "y \<noteq> 0" using assms by auto
  have "(2::real) powi (ilog2 x) < 2 powi (ilog2 y + 1)"
    using ilog2_bounds [OF assms(1)] ilog2_bounds [OF y] assms(2) by linarith
  then have "ilog2 x < ilog2 y + 1" by (rule two_powi_less_D)
  then show ?thesis by simp
qed

subsection \<open>Rounding to the nearest integer, ties to even\<close>

lemma round_half_even_cases:
  "round_half_even x = \<lfloor>x\<rfloor> \<or> round_half_even x = \<lfloor>x\<rfloor> + 1"
  by (simp add: round_half_even_def Let_def)

lemma round_half_even_error: "\<bar>real_of_int (round_half_even x) - x\<bar> \<le> 1 / 2"
proof -
  have "real_of_int \<lfloor>x\<rfloor> \<le> x" "x < real_of_int \<lfloor>x\<rfloor> + 1" by linarith+
  then show ?thesis
    by (auto simp: round_half_even_def Let_def abs_le_iff)
qed

lemma round_half_even_of_int [simp]: "round_half_even (real_of_int n) = n"
  by (simp add: round_half_even_def)

lemma round_half_even_mono:
  assumes "x \<le> y"
  shows "round_half_even x \<le> round_half_even y"
proof (cases "\<lfloor>x\<rfloor> = \<lfloor>y\<rfloor>")
  case True
  with assms show ?thesis
    by (auto simp: round_half_even_def Let_def)
next
  case False
  with assms have "\<lfloor>x\<rfloor> < \<lfloor>y\<rfloor>" using floor_mono [OF assms] by linarith
  then have "\<lfloor>x\<rfloor> + 1 \<le> \<lfloor>y\<rfloor>" by simp
  moreover have "round_half_even x \<le> \<lfloor>x\<rfloor> + 1" using round_half_even_cases [of x] by auto
  moreover have "\<lfloor>y\<rfloor> \<le> round_half_even y" using round_half_even_cases [of y] by auto
  ultimately show ?thesis by linarith
qed

lemma round_half_even_minus: "round_half_even (- x) = - round_half_even x"
proof (cases "x \<in> \<int>")
  case True
  then obtain n where "x = real_of_int n" by (auto elim: Ints_cases)
  then have "- x = real_of_int (- n)" by simp
  then show ?thesis unfolding \<open>x = real_of_int n\<close>
    by (simp only: round_half_even_of_int)
next
  case False
  then have "x \<noteq> real_of_int \<lfloor>x\<rfloor>" by (metis Ints_of_int)
  then have f: "\<lfloor>- x\<rfloor> = - \<lfloor>x\<rfloor> - 1"
    by (simp add: floor_minus ceiling_altdef)
  have "real_of_int \<lfloor>x\<rfloor> \<le> x" "x < real_of_int \<lfloor>x\<rfloor> + 1" by linarith+
  then show ?thesis
    by (auto simp: round_half_even_def Let_def f)
qed

subsection \<open>Rounding to a double\<close>

lemma py_float_minus: "py_float (- x) = - py_float x"
  by (simp add: py_float_def ilog2_minus round_half_even_minus Let_def)

lemma py_float_scaled:
  assumes "x \<noteq> 0"
  shows "py_float x = real_of_int (round_half_even (x / 2 powi (ilog2 x - 52))) * 2 powi (ilog2 x - 52)"
  using assms by (simp add: py_float_def Let_def)

lemma scale_52: "(2::real) powi (e - 52) * 2 ^ 52 = 2 powi e"
  by (simp add: power_int_diff)

lemma py_float_error: "\<bar>py_float x - x\<bar> \<le> \<bar>x\<bar> / 2 ^ 53"
proof (cases "x = 0")
  case True
  then show ?thesis by (simp add: py_float_def)
next
  case False
  define s where "s = (2::real) powi (ilog2 x - 52)"
  define r where "r = real_of_int (round_half_even (x / s))"
  have s: "0 < s" by (simp add: s_def)
  have pf: "py_float x = r * s"
    unfolding r_def s_def by (rule py_float_scaled [OF False])
  have "\<bar>r - x / s\<bar> \<le> 1 / 2" unfolding r_def by (rule round_half_even_error)
  then have "\<bar>r - x / s\<bar> * s \<le> 1 / 2 * s" using s by (simp only: mult_le_cancel_right_pos)
  moreover have "\<bar>r - x / s\<bar> * s = \<bar>r * s - x\<bar>"
  proof -
    have "\<bar>r - x / s\<bar> * s = \<bar>r - x / s\<bar> * \<bar>s\<bar>" using s by simp
    also have "\<dots> = \<bar>(r - x / s) * s\<bar>" by (simp only: abs_mult)
    also have "(r - x / s) * s = r * s - x" using s by (simp add: field_simps)
    finally show ?thesis .
  qed
  ultimately have 1: "\<bar>py_float x - x\<bar> \<le> s / 2" by (simp add: pf)
  have "s * 2 ^ 52 = 2 powi (ilog2 x)" unfolding s_def by (rule scale_52)
  moreover have "2 powi (ilog2 x) \<le> \<bar>x\<bar>" using ilog2_bounds [OF False] by simp
  ultimately have "s * 2 ^ 52 \<le> \<bar>x\<bar>" by simp
  then have "s / 2 \<le> \<bar>x\<bar> / 2 ^ 53" by simp
  with 1 show ?thesis by linarith
qed

lemma py_float_of_int:
  assumes "\<bar>n\<bar> < 2 ^ 53"
  shows "py_float (real_of_int n) = real_of_int n"
proof (cases "n = 0")
  case True
  then show ?thesis by (simp add: py_float_def)
next
  case False
  define x where "x = real_of_int n"
  have x: "x \<noteq> 0" using False by (simp add: x_def)
  have "real_of_int \<bar>n\<bar> < real_of_int (2 ^ 53)" using assms by (simp only: of_int_less_iff)
  then have "\<bar>x\<bar> < 2 powi 53" by (simp add: x_def)
  then have "(2::real) powi (ilog2 x) < 2 powi 53" using ilog2_bounds [OF x] by linarith
  then have "ilog2 x < 53" by (rule two_powi_less_D)
  define k where "k = nat (52 - ilog2 x)"
  have e: "ilog2 x - 52 = - int k" using \<open>ilog2 x < 53\<close> by (simp add: k_def)
  have p: "(2::real) powi (ilog2 x - 52) = 1 / 2 ^ k"
    unfolding e by (simp add: power_int_minus field_simps)
  have "x / 2 powi (ilog2 x - 52) = real_of_int (n * 2 ^ k)"
    unfolding p by (simp add: x_def)
  then have "round_half_even (x / 2 powi (ilog2 x - 52)) = n * 2 ^ k"
    by (simp only: round_half_even_of_int)
  then have "py_float x = real_of_int (n * 2 ^ k) * (1 / 2 ^ k)"
    using py_float_scaled [OF x] p by simp
  then show ?thesis by (simp add: x_def)
qed

lemma py_float_pos_bounds:
  assumes "0 < x"
  shows "2 powi (ilog2 x) \<le> py_float x \<and> py_float x \<le> 2 powi (ilog2 x + 1)"
proof -
  define s where "s = (2::real) powi (ilog2 x - 52)"
  define r where "r = real_of_int (round_half_even (x / s))"
  have x: "x \<noteq> 0" using assms by simp
  have s: "0 < s" by (simp add: s_def)
  have pf: "py_float x = r * s"
    unfolding r_def s_def by (rule py_float_scaled [OF x])
  have s52: "2 powi (ilog2 x) = 2 ^ 52 * s"
    unfolding s_def using scale_52 [of "ilog2 x"] by (simp only: mult.commute)
  have "2 powi (ilog2 x + 1) = 2 powi (ilog2 x) * (2::real)" by (simp add: power_int_add)
  then have s53: "2 powi (ilog2 x + 1) = 2 ^ 53 * s" by (simp add: s52)
  have b: "2 powi (ilog2 x) \<le> x" "x < 2 powi (ilog2 x + 1)"
    using ilog2_bounds [OF x] assms by simp_all
  have "2 ^ 52 * s \<le> x" using b(1) by (simp only: s52)
  then have "real_of_int (2 ^ 52) \<le> x / s" using s by (simp add: field_simps)
  then have "round_half_even (real_of_int (2 ^ 52)) \<le> round_half_even (x / s)"
    by (rule round_half_even_mono)
  then have "2 ^ 52 \<le> round_half_even (x / s)" by (simp only: round_half_even_of_int)
  then have "real_of_int (2 ^ 52) \<le> r"
    unfolding r_def by (simp only: of_int_le_iff)
  then have "2 ^ 52 \<le> r" by simp
  then have "2 ^ 52 * s \<le> r * s" using s by (simp only: mult_le_cancel_right_pos)
  then have lo: "2 powi (ilog2 x) \<le> py_float x" by (simp only: s52 pf)
  have "x \<le> 2 ^ 53 * s" using b(2) by (simp only: s53)
  then have "x / s \<le> real_of_int (2 ^ 53)" using s by (simp add: field_simps)
  then have "round_half_even (x / s) \<le> round_half_even (real_of_int (2 ^ 53))"
    by (rule round_half_even_mono)
  then have "round_half_even (x / s) \<le> 2 ^ 53" by (simp only: round_half_even_of_int)
  then have "r \<le> real_of_int (2 ^ 53)"
    unfolding r_def by (simp only: of_int_le_iff)
  then have "r \<le> 2 ^ 53" by simp
  then have "r * s \<le> 2 ^ 53 * s" using s by (simp only: mult_le_cancel_right_pos)
  then have hi: "py_float x \<le> 2 powi (ilog2 x + 1)" by (simp only: s53 pf)
  from lo hi show ?thesis ..
qed

lemma py_float_mono_pos:
  assumes "0 < x" "x \<le> y"
  shows "py_float x \<le> py_float y"
proof -
  have x: "x \<noteq> 0" and y: "y \<noteq> 0" and ypos: "0 < y" using assms by simp_all
  have le: "ilog2 x \<le> ilog2 y" using assms by (intro ilog2_mono) simp_all
  show ?thesis
  proof (cases "ilog2 x = ilog2 y")
    case True
    define s where "s = (2::real) powi (ilog2 x - 52)"
    have s: "0 < s" by (simp add: s_def)
    have "x / s \<le> y / s" using assms(2) s by (simp add: divide_right_mono)
    then have "round_half_even (x / s) \<le> round_half_even (y / s)"
      by (rule round_half_even_mono)
    then have "real_of_int (round_half_even (x / s)) \<le> real_of_int (round_half_even (y / s))"
      by (simp only: of_int_le_iff)
    then have "real_of_int (round_half_even (x / s)) * s \<le> real_of_int (round_half_even (y / s)) * s"
      using s by (simp only: mult_le_cancel_right_pos)
    then show ?thesis
      using py_float_scaled [OF x] py_float_scaled [OF y] True by (simp add: s_def)
  next
    case False
    with le have "ilog2 x + 1 \<le> ilog2 y" by simp
    then have "(2::real) powi (ilog2 x + 1) \<le> 2 powi (ilog2 y)"
      by (rule power_int_increasing) simp
    with py_float_pos_bounds [OF assms(1)] py_float_pos_bounds [OF ypos]
    show ?thesis by linarith
  qed
qed

lemma py_float_nonneg: "0 \<le> x \<Longrightarrow> 0 \<le> py_float x"
proof (cases "x = 0")
  case True
  then show ?thesis by (simp add: py_float_def)
next
  case False
  assume "0 \<le> x"
  with False have "0 < x" by simp
  from py_float_pos_bounds [OF this] zero_less_power_int [of "2::real" "ilog2 x"]
  show ?thesis by linarith
qed

lemma py_float_nonpos: "x \<le> 0 \<Longrightarrow> py_float x \<le> 0"
  using py_float_nonneg [of "- x"] by (simp add: py_float_minus)

lemma py_float_mono:
  assumes "x \<le> y"
  shows "py_float x \<le> py_float y"
proof -
  consider "0 < x" | "x \<le> 0" "0 \<le> y" | "y < 0" by linarith
  then show ?thesis
  proof cases
    case 1
    then show ?thesis using assms by (rule py_float_mono_pos)
  next
    case 2
    then show ?thesis using py_float_nonpos [of x] py_float_nonneg [of y] by linarith
  next
    case 3
    then have "0 < - y" "- y \<le> - x" using assms by simp_all
    then have "py_float (- y) \<le> py_float (- x)" by (rule py_float_mono_pos)
    then show ?thesis by (simp add: py_float_minus)
  qed
qed

lemma py_int_mono:
  assumes "x \<le> y"
  shows "py_int x \<le> py_int y"
proof -
  consider "0 \<le> x" | "x < 0" "0 \<le> y" | "y < 0" by linarith
  then show ?thesis
  proof cases
    case 1
    then show ?thesis using assms by (simp add: py_int_def floor_mono)
  next
    case 2
    then have "\<lceil>x\<rceil> \<le> 0" "0 \<le> \<lfloor>y\<rfloor>" by (simp_all add: ceiling_le_iff)
    moreover have "py_int x = \<lceil>x\<rceil>" "py_int y = \<lfloor>y\<rfloor>"
      using 2 by (simp_all add: py_int_def)
    ultimately show ?thesis by linarith
  next
    case 3
    then show ?thesis using assms by (simp add: py_int_def ceiling_mono)
  qed
qed

lemma py_int_of_int [simp]: "py_int (real_of_int n) = n"
  by (simp add: py_int_def)

lemma py_int_close:
  assumes "real_of_int q + d \<le> v" "v \<le> real_of_int q + 1 - d" "\<bar>c - v\<bar> < d"
  shows "py_int c = py_int v"
proof -
  have c: "real_of_int q < c" "c < real_of_int q + 1" using assms by linarith+
  have v: "real_of_int q < v" "v < real_of_int q + 1" using assms by linarith+
  have fc: "\<lfloor>c\<rfloor> = q" using c by linarith
  have fv: "\<lfloor>v\<rfloor> = q" using v by linarith
  have cc: "\<lceil>c\<rceil> = q + 1" using c by linarith
  have cv: "\<lceil>v\<rceil> = q + 1" using v by linarith
  show ?thesis
  proof (cases "0 \<le> q")
    case True
    then have "0 \<le> real_of_int q" by simp
    with c v have "0 \<le> c" "0 \<le> v" by linarith+
    then show ?thesis by (simp add: py_int_def fc fv)
  next
    case False
    then have "q + 1 \<le> 0" by simp
    then have "real_of_int (q + 1) \<le> 0" by (simp only: of_int_le_0_iff)
    with c v have "\<not> 0 \<le> c" "\<not> 0 \<le> v" by simp_all
    then show ?thesis by (simp add: py_int_def cc cv)
  qed
qed

subsection \<open>The proportional branch of the normalizer\<close>

lemma normalize_steering_outside:
  assumes "10 < \<bar>raw - 128\<bar>"
  shows "normalize_steering t raw =
     py_int (py_float (py_float (py_float (real_of_int (raw - 128) / 127) * 90) + real_of_int t))"
  using assms by (auto simp: normalize_steering_def Let_def config_defs)

lemma normalize_steering_mono_outside:
  assumes "raw1 \<le> raw2" "10 < \<bar>raw1 - 128\<bar>" "10 < \<bar>raw2 - 128\<bar>"
  shows "normalize_steering t raw1 \<le> normalize_steering t raw2"
proof -
  have "real_of_int (raw1 - 128) / 127 \<le> real_of_int (raw2 - 128) / 127"
    using assms(1) by simp
  then have "py_float (real_of_int (raw1 - 128) / 127) \<le> py_float (real_of_int (raw2 - 128) / 127)"
    by (rule py_float_mono)
  then have "py_float (real_of_int (raw1 - 128) / 127) * 90
      \<le> py_float (real_of_int (raw2 - 128) / 127) * 90"
    by simp
  then have "py_float (py_float (real_of_int (raw1 - 128) / 127) * 90)
      \<le> py_float (py_float (real_of_int (raw2 - 128) / 127) * 90)"
    by (rule py_float_mono)
  then have "py_float (py_float (real_of_int (raw1 - 128) / 127) * 90) + real_of_int t
      \<le> py_float (py_float (real_of_int (raw2 - 128) / 127) * 90) + real_of_int t"
    by simp
  then have "py_float (py_float (py_float (real_of_int (raw1 - 128) / 127) * 90) + real_of_int t)
      \<le> py_float (py_float (py_float (real_of_int (raw2 - 128) / 127) * 90) + real_of_int t)"
    by (rule py_float_mono)
  then show ?thesis
    unfolding normalize_steering_outside [OF assms(2)] normalize_steering_outside [OF assms(3)]
    by (rule py_int_mono)
qed

lemma rel_err_small:
  fixes y z :: real
  assumes "\<bar>y - z\<bar> \<le> \<bar>z\<bar> / 9007199254740992" "\<bar>z\<bar> \<le> 1000"
  shows "\<bar>y - z\<bar> \<le> 1 / 1000000"
proof -
  have "\<bar>z\<bar> / 9007199254740992 \<le> 1000 / 9007199254740992"
    using assms(2) by (simp add: divide_right_mono)
  with assms(1) show ?thesis by simp
qed

lemma float_chain_error:
  assumes x: "\<bar>x\<bar> \<le> 2" and t: "\<bar>t\<bar> \<le> 45"
  shows "\<bar>py_float (py_float (py_float x * 90) + t) - (x * 90 + t)\<bar> < 1 / 127"
proof -
  define a where "a = py_float x"
  define b where "b = py_float (a * 90)"
  define c where "c = py_float (b + t)"
  have ea: "\<bar>a - x\<bar> \<le> \<bar>x\<bar> / 9007199254740992"
    using py_float_error [of x] by (simp add: a_def)
  have eb: "\<bar>b - a * 90\<bar> \<le> \<bar>a * 90\<bar> / 9007199254740992"
    using py_float_error [of "a * 90"] by (simp add: b_def)
  have ec: "\<bar>c - (b + t)\<bar> \<le> \<bar>b + t\<bar> / 9007199254740992"
    using py_float_error [of "b + t"] by (simp add: c_def)
  have a1: "\<bar>a - x\<bar> \<le> 1 / 1000000" using ea x by linarith
  have a2: "\<bar>a\<bar> \<le> 3" using a1 x by linarith
  have b1: "\<bar>b - a * 90\<bar> \<le> 1 / 1000000" using eb a2 by linarith
  have b2: "\<bar>b\<bar> \<le> 271" using b1 a2 by linarith
  have bt: "\<bar>b + t\<bar> \<le> 316" using b2 t by linarith
  have c1: "\<bar>c - (b + t)\<bar> \<le> 1 / 1000000" using ec bt by (intro rel_err_small) simp_all
  have a3: "a - x \<le> 1 / 1000000" "x - a \<le> 1 / 1000000" using a1 by linarith+
  have b3: "b - a * 90 \<le> 1 / 1000000" "a * 90 - b \<le> 1 / 1000000" using b1 by linarith+
  have c3: "c - (b + t) \<le> 1 / 1000000" "b + t - c \<le> 1 / 1000000" using c1 by linarith+
  have "c - (x * 90 + t) < 1 / 127" using a3 b3 c3 by linarith
  moreover have "x * 90 + t - c < 1 / 127" using a3 b3 c3 by linarith
  ultimately have "\<bar>c - (x * 90 + t)\<bar> < 1 / 127" by linarith
  then show ?thesis by (simp only: a_def b_def c_def)
qed

lemma dvd_127_scaled:
  assumes "(127::int) dvd 90 * k + 127 * t"
  shows "127 dvd k"
proof -
  have "(127::int) dvd 90 * k" using assms by (simp add: dvd_add_left_iff)
  then have "(127::int) dvd 24 * (90 * k)" by (rule dvd_mult)
  moreover have "24 * (90 * k) = 127 * (17 * k) + k" by simp
  ultimately have "(127::int) dvd 127 * (17 * k) + k" by simp
  then show ?thesis by (simp only: dvd_add_right_iff dvd_triv_left)
qed

lemma normalize_steering_exact:
  assumes raw: "0 \<le> raw" "raw \<le> 255" and out: "10 < \<bar>raw - 128\<bar>"
    and t: "- 45 \<le> t" "t \<le> 45"
  shows "normalize_steering t raw
     = py_int (real_of_int (raw - 128) / 127 * 90 + real_of_int t)"
proof (cases "127 dvd raw - 128")
  case True
  then obtain n where n: "raw - 128 = 127 * n" by (auto elim: dvdE)
  with raw have nb: "- 1 \<le> n" "n \<le> 1" by simp_all
  have x: "real_of_int (raw - 128) / 127 = real_of_int n" by (simp add: n)
  have 1: "py_float (real_of_int n) = real_of_int n"
    using nb by (intro py_float_of_int) simp
  have 2: "py_float (real_of_int (n * 90)) = real_of_int (n * 90)"
    using nb by (intro py_float_of_int) simp
  have 3: "py_float (real_of_int (n * 90 + t)) = real_of_int (n * 90 + t)"
    using nb t by (intro py_float_of_int) simp
  have "normalize_steering t raw = py_int (real_of_int (n * 90 + t))"
    unfolding normalize_steering_outside [OF out] x 1
    using 2 3 by simp
  also have "\<dots> = py_int (real_of_int (raw - 128) / 127 * 90 + real_of_int t)"
    unfolding x by simp
  finally show ?thesis .
next
  case False
  define m where "m = 90 * (raw - 128) + 127 * t"
  define q where "q = m div 127"
  define r where "r = m mod 127"
  define x where "x = real_of_int (raw - 128) / 127"
  have "\<not> 127 dvd m" using False dvd_127_scaled [of "raw - 128" t] by (auto simp: m_def)
  then have "r \<noteq> 0" by (simp add: r_def dvd_eq_mod_eq_0)
  moreover have "0 \<le> r" "r < 127" by (simp_all add: r_def)
  ultimately have r: "1 \<le> r" "r \<le> 126" by simp_all
  have "m = 127 * q + r" by (simp add: q_def r_def)
  then have "real_of_int m = 127 * real_of_int q + real_of_int r"
    by (simp only: of_int_add of_int_mult of_int_numeral)
  moreover have "real_of_int m = 127 * (x * 90 + real_of_int t)"
    by (simp add: m_def x_def)
  ultimately have v: "x * 90 + real_of_int t = real_of_int q + real_of_int r / 127"
    by simp
  have rr: "1 \<le> real_of_int r" "real_of_int r \<le> 126" using r by simp_all
  have lo: "real_of_int q + 1 / 127 \<le> x * 90 + real_of_int t"
    unfolding v using rr by simp
  have hi: "x * 90 + real_of_int t \<le> real_of_int q + 1 - 1 / 127"
    unfolding v using rr by simp
  have "\<bar>real_of_int (raw - 128)\<bar> \<le> 128" using raw by simp
  then have xb: "\<bar>x\<bar> \<le> 2" by (simp add: x_def)
  have tb: "\<bar>real_of_int t\<bar> \<le> 45" using t by simp
  have "py_int (py_float (py_float (py_float x * 90) + real_of_int t))
      = py_int (x * 90 + real_of_int t)"
    using lo hi float_chain_error [OF xb tb] by (rule py_int_close)
  then show ?thesis
    unfolding normalize_steering_outside [OF out] x_def .
qed

section \<open>The deadzone\<close>

lemma centered_iff:
  "(AXIS_MID - STEERING_DEADZONE \<le> raw \<and> raw \<le> AXIS_MID + STEERING_DEADZONE)
     \<longleftrightarrow> \<bar>raw - 128\<bar> \<le> 10"
  by (auto simp: config_defs)

text \<open>
  C1. For every raw axis value between 118 and 138 and every trim between -45 and 45, the
  steering normalizer returns the trim itself.
\<close>

theorem normalize_steering_deadzone:
  "118 \<le> raw \<Longrightarrow> raw \<le> 138 \<Longrightarrow> - 45 \<le> trim \<Longrightarrow> trim \<le> 45
     \<Longrightarrow> normalize_steering trim raw = trim"
  by (simp add: normalize_steering_def config_defs)

theorem normalize_steering_deadzone_witness:
  "(118::int) \<le> 120 \<and> (120::int) \<le> 138 \<and> - 45 \<le> (7::int) \<and> (7::int) \<le> 45
     \<and> normalize_steering 7 120 = 7"
  using normalize_steering_deadzone [of 120 7] by simp

section \<open>The proportional angle\<close>

text \<open>
  The values next to the deadzone: at trim 0 the angle steps from 0 at raw values 118 and 138
  to -7 and 7 at raw values 117 and 139.
\<close>

lemma normalize_steering_next_to_deadzone:
  "normalize_steering 0 117 = - 7 \<and> normalize_steering 0 139 = 7"
  using normalize_steering_exact [of 117 0] normalize_steering_exact [of 139 0]
  by (simp add: py_int_def)

text \<open>
  C4. For every fixed trim the normalizer is monotonic non-decreasing in the raw value over
  the raw values outside the deadzone. At trim 0 it maps 255 to exactly 90 and 0 to exactly
  -90. For a raw value between 0 and 255 outside the deadzone and a trim between -45 and 45
  the double arithmetic of the code gives exactly the linear scaling of the offset from the
  midpoint, plus the trim, truncated toward zero. The boundary values 118 and 138 of the
  deadzone map to 0 at trim 0.
\<close>

theorem normalize_steering_scaling:
  "(raw1 \<le> raw2 \<and> 10 < \<bar>raw1 - 128\<bar> \<and> 10 < \<bar>raw2 - 128\<bar>
      \<longrightarrow> normalize_steering t raw1 \<le> normalize_steering t raw2)
   \<and> normalize_steering 0 255 = 90
   \<and> normalize_steering 0 0 = - 90
   \<and> (0 \<le> raw \<and> raw \<le> 255 \<and> 10 < \<bar>raw - 128\<bar> \<and> - 45 \<le> t \<and> t \<le> 45
      \<longrightarrow> normalize_steering t raw
            = py_int (real_of_int (raw - 128) / 127 * 90 + real_of_int t))
   \<and> normalize_steering 0 118 = 0
   \<and> normalize_steering 0 138 = 0"
proof -
  have mono: "raw1 \<le> raw2 \<and> 10 < \<bar>raw1 - 128\<bar> \<and> 10 < \<bar>raw2 - 128\<bar>
      \<longrightarrow> normalize_steering t raw1 \<le> normalize_steering t raw2"
    by (simp add: normalize_steering_mono_outside)
  have right: "normalize_steering 0 255 = 90"
    using normalize_steering_exact [of 255 0] by (simp add: py_int_def)
  have left: "normalize_steering 0 0 = - 90"
    using normalize_steering_exact [of 0 0] by (simp add: py_int_def)
  have exact: "0 \<le> raw \<and> raw \<le> 255 \<and> 10 < \<bar>raw - 128\<bar> \<and> - 45 \<le> t \<and> t \<le> 45
      \<longrightarrow> normalize_steering t raw
            = py_int (real_of_int (raw - 128) / 127 * 90 + real_of_int t)"
    by (simp add: normalize_steering_exact)
  have edge: "normalize_steering 0 118 = 0" "normalize_steering 0 138 = 0"
    by (simp_all add: normalize_steering_def config_defs)
  from mono right left exact edge show ?thesis by blast
qed

theorem normalize_steering_scaling_witness:
  "normalize_steering 5 100 \<le> normalize_steering 5 200
   \<and> normalize_steering 5 200 = 56"
  using normalize_steering_scaling [where ?raw1.0 = 100 and ?raw2.0 = 200 and t = 5 and raw = 200]
  by (simp add: py_int_def)

section \<open>The steering branch\<close>

text \<open>
  C2. For a steering-axis event whose raw value is within the deadzone of the midpoint, an
  absolute-position command is issued exactly when the motor position differs from the
  target angle by more than one degree; outside the deadzone the command is always issued.
  With raw value 128 and trim 10, position 10 gives no command and position 5 gives one
  command with target 10.
\<close>

theorem steering_event_command:
  "ev_type ev = EV_ABS \<Longrightarrow> ev_code ev = STEERING_AXIS_CODE \<Longrightarrow>
   handle_event trim ev pos =
     (trim,
      if \<bar>ev_value ev - 128\<bar> \<le> 10
      then (if \<bar>pos - normalize_steering trim (ev_value ev)\<bar> > 1
            then [RunToAbsPos (normalize_steering trim (ev_value ev)) 720 ''coast'']
            else [])
      else [RunToAbsPos (normalize_steering trim (ev_value ev)) 720 ''coast''])
   \<and> handle_event 10 \<lparr>ev_type = EV_ABS, ev_code = STEERING_AXIS_CODE, ev_value = 128\<rparr> 10
       = (10, [])
   \<and> handle_event 10 \<lparr>ev_type = EV_ABS, ev_code = STEERING_AXIS_CODE, ev_value = 128\<rparr> 5
       = (10, [RunToAbsPos 10 720 ''coast''])"
  by (simp add: handle_event_def centered_iff Let_def STEERING_SPEED_def
        normalize_steering_def)

theorem steering_event_command_witness:
  "handle_event 3 \<lparr>ev_type = EV_ABS, ev_code = STEERING_AXIS_CODE, ev_value = 130\<rparr> 7
     = (3, [RunToAbsPos 3 720 ''coast''])"
  using steering_event_command
    [of "\<lparr>ev_type = EV_ABS, ev_code = STEERING_AXIS_CODE, ev_value = 130\<rparr>" 3 7]
  by (simp add: normalize_steering_def config_defs)

section \<open>The trim branch\<close>

lemma handle_event_trim_range:
  "- 45 \<le> t \<Longrightarrow> t \<le> 45 \<Longrightarrow>
   - 45 \<le> fst (handle_event t ev pos) \<and> fst (handle_event t ev pos) \<le> 45"
  by (simp add: handle_event_def Let_def MAX_TRIM_def)

lemma run_events_trim_range:
  "- 45 \<le> t \<Longrightarrow> t \<le> 45 \<Longrightarrow>
   - 45 \<le> fst (run_events t evs) \<and> fst (run_events t evs) \<le> 45"
proof (induction evs arbitrary: t)
  case Nil
  then show ?case by simp
next
  case (Cons a evs)
  obtain ev pos where a: "a = (ev, pos)" by (cases a)
  have step: "- 45 \<le> fst (handle_event t ev pos) \<and> fst (handle_event t ev pos) \<le> 45"
    using Cons.prems by (rule handle_event_trim_range)
  have "fst (run_events t (a # evs)) = fst (run_events (fst (handle_event t ev pos)) evs)"
    by (simp add: a split_beta)
  with Cons.IH step show ?case by simp
qed

lemma trim_right_at_max:
  "fst (run_events 45
          (map (\<lambda>pos. (\<lparr>ev_type = EV_ABS, ev_code = TRIM_AXIS_CODE, ev_value = 1\<rparr>, pos)) ps))
     = 45"
  by (induction ps) (simp_all add: handle_event_def config_defs split_beta)

lemma trim_left_at_min:
  "fst (run_events (- 45)
          (map (\<lambda>pos. (\<lparr>ev_type = EV_ABS, ev_code = TRIM_AXIS_CODE, ev_value = - 1\<rparr>, pos)) ps))
     = - 45"
  by (induction ps) (simp_all add: handle_event_def config_defs split_beta)

text \<open>
  C3. The trim starts at 0; after any sequence of events it lies between -45 and 45; a
  trim-adjust event clamps whatever value it finds into that range; any number of +1 events
  from 45 leaves 45, and any number of -1 events from -45 leaves -45.
\<close>

theorem trim_stays_clamped:
  "initial_steering_trim = 0
   \<and> - 45 \<le> fst (run_events initial_steering_trim evs)
   \<and> fst (run_events initial_steering_trim evs) \<le> 45
   \<and> (ev_type ev = EV_ABS \<and> ev_code ev = TRIM_AXIS_CODE \<and> ev_value ev \<noteq> 0
        \<longrightarrow> - 45 \<le> fst (handle_event t ev pos) \<and> fst (handle_event t ev pos) \<le> 45)
   \<and> fst (run_events 45
            (map (\<lambda>pos. (\<lparr>ev_type = EV_ABS, ev_code = TRIM_AXIS_CODE, ev_value = 1\<rparr>, pos)) ps))
       = 45
   \<and> fst (run_events (- 45)
            (map (\<lambda>pos. (\<lparr>ev_type = EV_ABS, ev_code = TRIM_AXIS_CODE, ev_value = - 1\<rparr>, pos)) ps))
       = - 45"
proof -
  have "- 45 \<le> fst (run_events initial_steering_trim evs)
        \<and> fst (run_events initial_steering_trim evs) \<le> 45"
    by (rule run_events_trim_range) (simp_all add: initial_steering_trim_def)
  moreover have "ev_type ev = EV_ABS \<and> ev_code ev = TRIM_AXIS_CODE \<and> ev_value ev \<noteq> 0
        \<longrightarrow> - 45 \<le> fst (handle_event t ev pos) \<and> fst (handle_event t ev pos) \<le> 45"
    by (simp add: handle_event_def config_defs Let_def)
  ultimately show ?thesis
    using trim_right_at_max [of ps] trim_left_at_min [of ps]
    by (simp add: initial_steering_trim_def)
qed

theorem trim_stays_clamped_witness:
  "fst (handle_event 100 \<lparr>ev_type = EV_ABS, ev_code = TRIM_AXIS_CODE, ev_value = 1\<rparr> 0) = 45
   \<and> fst (run_events initial_steering_trim
            [(\<lparr>ev_type = EV_ABS, ev_code = TRIM_AXIS_CODE, ev_value = - 1\<rparr>, 0),
             (\<lparr>ev_type = EV_ABS, ev_code = TRIM_AXIS_CODE, ev_value = - 1\<rparr>, 0)]) = - 2
   \<and> - 45 \<le> fst (handle_event 100
                     \<lparr>ev_type = EV_ABS, ev_code = TRIM_AXIS_CODE, ev_value = 1\<rparr> 0)
   \<and> fst (handle_event 100 \<lparr>ev_type = EV_ABS, ev_code = TRIM_AXIS_CODE, ev_value = 1\<rparr> 0)
       \<le> 45"
  using trim_stays_clamped
    [of "[]" "\<lparr>ev_type = EV_ABS, ev_code = TRIM_AXIS_CODE, ev_value = 1\<rparr>" 100 0 "[]"]
  by (simp add: handle_event_def config_defs initial_steering_trim_def Let_def split_beta)

text \<open>
  C5, as the spec states it: a D-pad event with value -1 at trim 45 leaves the trim at 45.
  The code steps the trim down to 44, and the log, the announcement and the steering command
  all carry 44.
\<close>

theorem trim_left_at_45_counterexample:
  "handle_event 45 \<lparr>ev_type = EV_ABS, ev_code = TRIM_AXIS_CODE, ev_value = - 1\<rparr> 0
     = (44, [Print ''Steering Trim updated: 44 degrees'', Speak ''Trim 44 degrees'',
             RunToAbsPos 44 720 ''coast''])
   \<and> fst (handle_event 45 \<lparr>ev_type = EV_ABS, ev_code = TRIM_AXIS_CODE, ev_value = - 1\<rparr> 0)
       \<noteq> 45"
  by (simp add: handle_event_def config_defs str_int_def str_nat.simps)

text \<open>
  C5, amended: a D-pad event with value +1 at trim 45 leaves the trim at 45 (clamped), and
  still prints the log line, speaks the announcement and issues an absolute-position command
  to 45.
\<close>

theorem trim_right_at_45:
  "handle_event 45 \<lparr>ev_type = EV_ABS, ev_code = TRIM_AXIS_CODE, ev_value = 1\<rparr> pos
     = (45, [Print ''Steering Trim updated: 45 degrees'', Speak ''Trim 45 degrees'',
             RunToAbsPos 45 720 ''coast''])"
  by (simp add: handle_event_def config_defs str_int_def str_nat.simps)

text \<open>
  C9. A trim-axis event with value 0 changes nothing: the trim is the same and there is no
  effect at all (no log line, no announcement, no steering command).
\<close>

theorem trim_axis_zero_ignored:
  "ev_type ev = EV_ABS \<Longrightarrow> ev_code ev = TRIM_AXIS_CODE \<Longrightarrow> ev_value ev = 0
     \<Longrightarrow> handle_event t ev pos = (t, [])"
  by (simp add: handle_event_def config_defs)

theorem trim_axis_zero_ignored_witness:
  "handle_event 12 \<lparr>ev_type = EV_ABS, ev_code = TRIM_AXIS_CODE, ev_value = 0\<rparr> 3 = (12, [])"
  using trim_axis_zero_ignored
    [of "\<lparr>ev_type = EV_ABS, ev_code = TRIM_AXIS_CODE, ev_value = 0\<rparr>" 12 3]
  by simp

text \<open>
  C10. In any state the loop can reach, a trim-axis event whose value is neither 0, -1 nor 1
  leaves the trim unchanged, and the log line, the announcement and the absolute-position
  command to the unchanged trim are all issued.
\<close>

theorem trim_axis_other_value:
  "ev_type ev = EV_ABS \<Longrightarrow> ev_code ev = TRIM_AXIS_CODE \<Longrightarrow>
   ev_value ev \<noteq> 0 \<Longrightarrow> ev_value ev \<noteq> - 1 \<Longrightarrow> ev_value ev \<noteq> 1 \<Longrightarrow>
   handle_event (fst (run_events initial_steering_trim evs)) ev pos
     = (fst (run_events initial_steering_trim evs),
        [Print (''Steering Trim updated: ''
                @ str_int (fst (run_events initial_steering_trim evs)) @ '' degrees''),
         Speak (''Trim '' @ str_int (fst (run_events initial_steering_trim evs)) @ '' degrees''),
         RunToAbsPos (fst (run_events initial_steering_trim evs)) 720 ''coast''])"
proof -
  assume ev: "ev_type ev = EV_ABS" "ev_code ev = TRIM_AXIS_CODE"
    "ev_value ev \<noteq> 0" "ev_value ev \<noteq> - 1" "ev_value ev \<noteq> 1"
  have "- 45 \<le> fst (run_events initial_steering_trim evs)
        \<and> fst (run_events initial_steering_trim evs) \<le> 45"
    by (rule run_events_trim_range) (simp_all add: initial_steering_trim_def)
  with ev show ?thesis
    by (simp add: handle_event_def config_defs Let_def)
qed

theorem trim_axis_other_value_witness:
  "handle_event 1 \<lparr>ev_type = EV_ABS, ev_code = TRIM_AXIS_CODE, ev_value = 2\<rparr> 0
     = (1, [Print ''Steering Trim updated: 1 degrees'', Speak ''Trim 1 degrees'',
            RunToAbsPos 1 720 ''coast''])"
  using trim_axis_other_value
    [of "\<lparr>ev_type = EV_ABS, ev_code = TRIM_AXIS_CODE, ev_value = 2\<rparr>"
        "[(\<lparr>ev_type = EV_ABS, ev_code = TRIM_AXIS_CODE, ev_value = 1\<rparr>, 0)]" 0]
  by (simp add: handle_event_def config_defs initial_steering_trim_def str_int_def
        str_nat.simps)

section \<open>The drive keys\<close>

text \<open>
  C8. Events are handled in arrival order. Forward pressed then released: both drive outputs
  at +100, then a stop without braking. Reverse pressed then released: both at -100, then a
  stop without braking. Brake pressed then released: a stop with braking, then a stop
  without braking. The trim is untouched.
\<close>

theorem drive_keys:
  "run_events t [(\<lparr>ev_type = EV_KEY, ev_code = ACCEL_CODE, ev_value = 1\<rparr>, p1),
                 (\<lparr>ev_type = EV_KEY, ev_code = ACCEL_CODE, ev_value = 0\<rparr>, p2)]
     = (t, [TankOn 100 100, TankOff False])
   \<and> run_events t [(\<lparr>ev_type = EV_KEY, ev_code = REVERSE_CODE, ev_value = 1\<rparr>, p1),
                   (\<lparr>ev_type = EV_KEY, ev_code = REVERSE_CODE, ev_value = 0\<rparr>, p2)]
     = (t, [TankOn (- 100) (- 100), TankOff False])
   \<and> run_events t [(\<lparr>ev_type = EV_KEY, ev_code = BRAKE_CODE, ev_value = 1\<rparr>, p1),
                   (\<lparr>ev_type = EV_KEY, ev_code = BRAKE_CODE, ev_value = 0\<rparr>, p2)]
     = (t, [TankOff True, TankOff False])"
  by (simp add: handle_event_def handle_key_def config_defs)

section \<open>Start-up and shutdown\<close>

lemma main_opened_suffix:
  "suffix shutdown_sequence (fst (main (Opened name) evs ending))"
proof (cases ending)
  case LoopExit
  then show ?thesis
    by (simp add: main_def split_beta suffix_def)
next
  case (Raised x p)
  then show ?thesis
    by (cases x) (simp_all add: main_def split_beta suffix_def)
qed

text \<open>
  C6, as the spec states it: the shutdown sequence runs on every exit path, a fatal setup
  error included. The two \<open>sys.exit(1)\<close> calls of the setup code come before the
  \<open>try\<close>/\<open>finally\<close> that holds the shutdown sequence: when the controller is not found, the
  drive motors are never stopped, the stop behaviour of the steering motor is never set to
  braking and the steering motor is never switched off.
\<close>

theorem setup_error_no_shutdown_counterexample:
  "TankOff False \<notin> set (fst (main FileNotFoundError [] LoopExit))
   \<and> SetStopAction ''brake'' \<notin> set (fst (main FileNotFoundError [] LoopExit))
   \<and> MotorOff \<notin> set (fst (main FileNotFoundError [] LoopExit))"
  by (simp add: main_def module_setup_def)

text \<open>
  C6, amended: once the controller has been opened, however the loop ends (the event source
  is exhausted, the operator interrupts, or another exception is raised, between two events
  or in the middle of one), the last three effects of the program are the shutdown
  sequence: drive outputs stopped without braking, the stop behaviour of the steering motor
  set to braking, the steering motor switched off. A fatal setup error leaves before the
  loop and issues none of the three.
\<close>

theorem shutdown_after_loop:
  "suffix [TankOff False, SetStopAction ''brake'', MotorOff]
     (fst (main (Opened name) evs ending))
   \<and> set (fst (main FileNotFoundError evs ending))
       \<inter> {TankOff False, SetStopAction ''brake'', MotorOff} = {}
   \<and> set (fst (main PermissionError evs ending))
       \<inter> {TankOff False, SetStopAction ''brake'', MotorOff} = {}"
proof -
  have "suffix shutdown_sequence (fst (main (Opened name) evs ending))"
    by (rule main_opened_suffix)
  then show ?thesis
    by (simp add: shutdown_sequence_def main_def module_setup_def)
qed

text \<open>
  C7, as the spec states it: the diagnostic of each setup failure names the failure kind
  and the configured device path. The message printed for a permission error does not
  contain the path.
\<close>

theorem permission_error_message_counterexample:
  "last (fst (main PermissionError [] LoopExit))
     = Print ''Error: Permission denied. You must run the script with 'sudo'.''
   \<and> \<not> sublist CONTROLLER_PATH
         ''Error: Permission denied. You must run the script with 'sudo'.''"
  by (simp add: main_def CONTROLLER_PATH_def sublist_code)

text \<open>
  C7, amended: when the controller is not found, the diagnostic names the failure kind and
  the configured device path; when permission is denied, the diagnostic names the failure
  kind only, and the path has been printed in the line before it. In both cases the process
  exits with status 1 and no event is handled: the effects do not depend on the events.
\<close>

theorem setup_failure:
  "main FileNotFoundError evs ending =
     ([SetStopAction ''coast'', MotorReset,
       Print ''Attempting to open controller at /dev/input/event2...'',
       Print ''Error: Controller not found at /dev/input/event2. Check your USB connection and path.''],
      1)
   \<and> main PermissionError evs ending =
     ([SetStopAction ''coast'', MotorReset,
       Print ''Attempting to open controller at /dev/input/event2...'',
       Print ''Error: Permission denied. You must run the script with 'sudo'.''],
      1)
   \<and> sublist ''not found''
        ''Error: Controller not found at /dev/input/event2. Check your USB connection and path.''
   \<and> sublist CONTROLLER_PATH
        ''Error: Controller not found at /dev/input/event2. Check your USB connection and path.''
   \<and> sublist ''Permission denied''
        ''Error: Permission denied. You must run the script with 'sudo'.''
   \<and> sublist CONTROLLER_PATH ''Attempting to open controller at /dev/input/event2...''"
  by (simp add: main_def module_setup_def CONTROLLER_PATH_def sublist_code)

end
